theory Spec2Isabelle
  imports Main "HOL-Library.Word"
begin

section \<open>Calendar export: the date range resolver and the event query\<close>

text \<open>
  The program is a single Go file, \<^verbatim>\<open>calendar.go\<close>. Its \<^verbatim>\<open>main\<close> resolves a query
  window from the flags, builds an authorised client, and lists the events of the window
  page by page, writing one CSV record per event to standard output.

  The Go standard library and the Google client libraries are not part of the program.
  Where \<^verbatim>\<open>main\<close> calls them, the model takes what they return as a parameter:
  the RFC3339 parser and formatter and the two readings of the clock are the fields of
  \<open>timelib\<close>.
\<close>

subsection \<open>Instants and durations\<close>

text \<open>
  A \<^verbatim>\<open>time.Time\<close> is an instant together with the zone it is displayed in. The instant
  is counted in nanoseconds from January 1 of year 1, 00:00:00 UTC, which is the zero value
  of the type. A \<^verbatim>\<open>time.Duration\<close> is a signed 64-bit count of nanoseconds.
\<close>

record Time =
  nanos :: int
  zone :: int

type_synonym Duration = "64 word"

definition zero_Time :: Time where
  "zero_Time = \<lparr>nanos = 0, zone = 0\<rparr>"

text \<open>\<^verbatim>\<open>t.Add(d)\<close>: the instant moves by \<open>d\<close>, the zone stays.\<close>

definition Add :: "Time \<Rightarrow> Duration \<Rightarrow> Time" where
  "Add t d = t\<lparr>nanos := nanos t + sint d\<rparr>"

text \<open>\<^verbatim>\<open>t.After(u)\<close> compares the instants only.\<close>

definition After :: "Time \<Rightarrow> Time \<Rightarrow> bool" where
  "After t u = (nanos u < nanos t)"

record timelib =
  parse :: "string \<Rightarrow> string + Time"
  format :: "Time \<Rightarrow> string"
  now_start :: Time
  now_end :: Time

text \<open>
  \<open>parse\<close> is \<^verbatim>\<open>time.Parse(time.RFC3339, s)\<close>, with \<open>Inl\<close> the text of the error;
  \<open>format\<close> is \<^verbatim>\<open>t.Format(time.RFC3339)\<close>; \<open>now_start\<close> and \<open>now_end\<close> are what
  \<^verbatim>\<open>time.Now()\<close> returns at line 102 and at line 112.
\<close>

subsection \<open>Flags\<close>

record Flags =
  limit :: "64 word"
  dateStartString :: string
  dateEndString :: string
  dateFromSpan :: Duration
  dateToSpan :: Duration

text \<open>The defaults of lines 93 to 97: no flag given on the command line.\<close>

definition default_Flags :: Flags where
  "default_Flags =
     \<lparr>limit = 250, dateStartString = [], dateEndString = [],
      dateFromSpan = 0, dateToSpan = 0\<rparr>"

subsection \<open>The date range resolver (lines 101 to 123 of main)\<close>

text \<open>
  \<^verbatim>\<open>log.Fatalf\<close> prints its message and exits the process: a fatal exit is \<open>Inl\<close> of the
  message, and nothing after it runs.

  Lines 101 to 108 assign \<^verbatim>\<open>dateStart\<close>.
\<close>

definition resolve_start :: "timelib \<Rightarrow> Flags \<Rightarrow> string + Time" where
  "resolve_start L fl =
     (if dateStartString fl = [] then Inr (now_start L)
      else (case parse L (dateStartString fl) of
              Inl e \<Rightarrow> Inl (''Unable to parse start date: '' @ e)
            | Inr t \<Rightarrow> Inr t))"

text \<open>
  Lines 109 to 119 assign \<^verbatim>\<open>dateEnd\<close>. Line 109 adds the \<^verbatim>\<open>from\<close> span to
  \<^verbatim>\<open>dateEnd\<close>, which still holds the zero value of its declaration at line 91; lines 111
  to 118 then assign \<^verbatim>\<open>dateEnd\<close> in both branches. The message of line 116 says
  "start date", as the source does.
\<close>

definition resolve_end :: "timelib \<Rightarrow> Flags \<Rightarrow> string + Time" where
  "resolve_end L fl =
     (let dateEnd = Add zero_Time (dateFromSpan fl) in
      case (if dateEndString fl = [] then Inr (now_end L)
            else (case parse L (dateEndString fl) of
                    Inl e \<Rightarrow> Inl (''Unable to parse start date: '' @ e)
                  | Inr t \<Rightarrow> Inr t)) of
        Inl m \<Rightarrow> Inl m
      | Inr dateEnd \<Rightarrow> Inr (Add dateEnd (dateToSpan fl)))"

text \<open>The diagnostic of line 122.\<close>

definition range_message :: "timelib \<Rightarrow> Time \<Rightarrow> Time \<Rightarrow> string" where
  "range_message L dateStart dateEnd =
     ''End date must be after start date: '' @ format L dateStart @ '' -> '' @ format L dateEnd"

text \<open>Lines 101 to 123 in order: start, end, then the check of line 121.\<close>

definition resolve_window :: "timelib \<Rightarrow> Flags \<Rightarrow> string + (Time \<times> Time)" where
  "resolve_window L fl =
     (case resolve_start L fl of
        Inl m \<Rightarrow> Inl m
      | Inr dateStart \<Rightarrow>
          (case resolve_end L fl of
             Inl m \<Rightarrow> Inl m
           | Inr dateEnd \<Rightarrow>
               if \<not> After dateEnd dateStart then Inl (range_message L dateStart dateEnd)
               else Inr (dateStart, dateEnd)))"

subsection \<open>The query (lines 145 to 147 of main)\<close>

text \<open>
  The call built by \<^verbatim>\<open>srv.Events.List("primary")\<close> and its setters: the parameters the
  request carries to the remote API.
\<close>

record EventsListCall =
  calendarId :: string
  showDeleted :: bool
  singleEvents :: bool
  timeMin :: string
  timeMax :: string
  maxResults :: int
  orderBy :: string

definition events_call :: "timelib \<Rightarrow> Time \<Rightarrow> Time \<Rightarrow> EventsListCall" where
  "events_call L dateStart dateEnd =
     \<lparr>calendarId = ''primary'', showDeleted = False, singleEvents = True,
      timeMin = format L dateStart, timeMax = format L dateEnd,
      maxResults = 10, orderBy = ''startTime''\<rparr>"

text \<open>
  What a run of \<^verbatim>\<open>main\<close> comes to before the first page arrives. \<open>Fatal_window\<close> is an
  exit at line 106, 116 or 122: only the flags and the clock have been read.
  \<open>Fatal_client\<close> is an exit between lines 125 and 140, where the credentials are read
  and the client is built (the token exchange of \<^verbatim>\<open>getTokenFromWeb\<close> is a network call).
  \<open>Fetch\<close> is the request of line 145 going out to the remote API.

  The parameter \<open>client\<close> is the diagnostic of lines 125 to 140 if one of them is fatal.
\<close>

datatype outcome = Fatal_window string | Fatal_client string | Fetch EventsListCall

definition main :: "timelib \<Rightarrow> string option \<Rightarrow> Flags \<Rightarrow> outcome" where
  "main L client fl =
     (case resolve_window L fl of
        Inl m \<Rightarrow> Fatal_window m
      | Inr (dateStart, dateEnd) \<Rightarrow>
          (case client of
             Some m \<Rightarrow> Fatal_client m
           | None \<Rightarrow> Fetch (events_call L dateStart dateEnd)))"

text \<open>Whether a run reaches the network at all.\<close>

fun network_used :: "outcome \<Rightarrow> bool" where
  "network_used (Fatal_window m) = False"
| "network_used (Fatal_client m) = True"
| "network_used (Fetch q) = True"

section \<open>The page collector and the record writer\<close>

subsection \<open>Errors\<close>

text \<open>
  \<^verbatim>\<open>ctx.Err()\<close> is nil, \<^verbatim>\<open>context.Canceled\<close> or \<^verbatim>\<open>context.DeadlineExceeded\<close>.
  \<open>StreamError\<close> is the error of a failed write to the output stream.
  \<open>NilDereference\<close> is the run-time panic of reading a field through a nil pointer: it
  is not returned but unwinds the callback, and is a value here so that the model has
  the branch.
\<close>

datatype context_error = Canceled | DeadlineExceeded

datatype error = ContextError context_error | StreamError | NilDereference

subsection \<open>The output stream and the CSV writer\<close>

text \<open>
  The \<^verbatim>\<open>io.Writer\<close> handed to \<^verbatim>\<open>WriteCallback\<close> is standard output. The model keeps the
  bytes it has accepted; a broken stream rejects every write.
\<close>

record ostream =
  written :: string
  broken :: bool

definition stream_Write :: "ostream \<Rightarrow> string \<Rightarrow> error option \<times> ostream" where
  "stream_Write s p =
     (if broken s then (Some StreamError, s)
      else (None, s\<lparr>written := written s @ p\<rparr>))"

text \<open>
  \<^verbatim>\<open>encoding/csv\<close>: a \<^verbatim>\<open>csv.Writer\<close> wraps the stream in a \<^verbatim>\<open>bufio.Writer\<close> of 4096
  bytes. \<open>buf\<close> is the bytes buffered and not yet passed on, \<open>werr\<close> the error the
  buffered writer keeps once a write to the stream has failed.

  \<^verbatim>\<open>Flush()\<close> passes the buffer on to the stream and returns nothing: a failure is kept in
  \<open>werr\<close> only. \<^verbatim>\<open>Write(record)\<close> returns the kept error if there is one; otherwise it
  appends the encoded record to the buffer, and what exceeds the buffer goes to the stream
  at once, a failure there being returned. The model passes the whole buffer on in that
  case; after the \<^verbatim>\<open>Flush()\<close> that follows every \<^verbatim>\<open>Write\<close> in this program the two
  agree.

  The encoding of a record (fields joined by commas, quoted where needed, ended by a
  newline) is the parameter \<open>enc\<close>.
\<close>

record csv_Writer =
  buf :: string
  werr :: "error option"
  out :: ostream

definition csv_NewWriter :: "ostream \<Rightarrow> csv_Writer" where
  "csv_NewWriter w = \<lparr>buf = [], werr = None, out = w\<rparr>"

definition csv_Flush :: "csv_Writer \<Rightarrow> csv_Writer" where
  "csv_Flush w =
     (case werr w of
        Some e \<Rightarrow> w
      | None \<Rightarrow>
          if buf w = [] then w
          else (case stream_Write (out w) (buf w) of
                  (Some e, s) \<Rightarrow> w\<lparr>werr := Some e, out := s\<rparr>
                | (None, s) \<Rightarrow> w\<lparr>buf := [], out := s\<rparr>))"

definition csv_Write ::
  "(string list \<Rightarrow> string) \<Rightarrow> csv_Writer \<Rightarrow> string list \<Rightarrow> error option \<times> csv_Writer" where
  "csv_Write enc w record =
     (case werr w of
        Some e \<Rightarrow> (Some e, w)
      | None \<Rightarrow>
          (let w1 = w\<lparr>buf := buf w @ enc record\<rparr>
           in if length (buf w1) \<le> 4096 then (None, w1)
              else (let w2 = csv_Flush w1 in (werr w2, w2))))"

subsection \<open>Events and pages\<close>

text \<open>
  Of \<^verbatim>\<open>calendar.Event\<close> the program reads \<^verbatim>\<open>Start\<close>, a pointer to an
  \<^verbatim>\<open>EventDateTime\<close> (nil when the event has no start), and \<^verbatim>\<open>Summary\<close>; of
  \<^verbatim>\<open>calendar.Events\<close>, a page, it reads \<^verbatim>\<open>Items\<close>.
\<close>

record EventDateTime =
  DateTime :: string
  Date :: string

record Event =
  Start :: "EventDateTime option"
  Summary :: string

record Events =
  Items :: "Event list"

subsection \<open>WriteEvent (lines 153 to 160)\<close>

definition WriteEvent ::
  "(string list \<Rightarrow> string) \<Rightarrow> csv_Writer \<Rightarrow> Event \<Rightarrow> error option \<times> csv_Writer" where
  "WriteEvent enc w item =
     (case Start item of
        None \<Rightarrow> (Some NilDereference, w)
      | Some start \<Rightarrow>
          (let date = DateTime start;
               date = (if date = [] then Date start else date)
           in csv_Write enc w [date, Summary item]))"

subsection \<open>EventCollector and WriteCallback (lines 162 to 185)\<close>

text \<open>
  The counters are of Go's type \<^verbatim>\<open>int\<close>, 64 bits wide and signed on the platforms the
  program is built for: words, read with \<open>sint\<close>.
\<close>

record EventCollector =
  events :: "Events list"
  pageCounter :: "64 word"
  itemCounter :: "64 word"

text \<open>The zero value of line 142.\<close>

definition new_EventCollector :: EventCollector where
  "new_EventCollector = \<lparr>events = [], pageCounter = 0, itemCounter = 0\<rparr>"

text \<open>
  The closure returned by \<^verbatim>\<open>WriteCallback\<close> captures the collector (through the
  pointer receiver) and the CSV writer made at line 169: they are its state.
\<close>

record callback_state =
  collector :: EventCollector
  csvWriter :: csv_Writer

definition WriteCallback :: "EventCollector \<Rightarrow> ostream \<Rightarrow> callback_state" where
  "WriteCallback c w = \<lparr>collector = c, csvWriter = csv_NewWriter w\<rparr>"

text \<open>The loop of lines 176 to 182 over the items of a page.\<close>

fun write_items ::
  "(string list \<Rightarrow> string) \<Rightarrow> csv_Writer \<Rightarrow> Event list \<Rightarrow> error option \<times> csv_Writer" where
  "write_items enc w [] = (None, w)"
| "write_items enc w (item # items) =
     (case WriteEvent enc w item of
        (Some err, w') \<Rightarrow> (Some err, w')
      | (None, w') \<Rightarrow> write_items enc (csv_Flush w') items)"

text \<open>
  One call of the closure (lines 170 to 184). \<open>ctx_Err\<close> is what \<^verbatim>\<open>ctx.Err()\<close>
  returns when the call begins.
\<close>

definition callback ::
  "(string list \<Rightarrow> string) \<Rightarrow> context_error option \<Rightarrow> callback_state \<Rightarrow> Events
     \<Rightarrow> error option \<times> callback_state" where
  "callback enc ctx_Err st e =
     (case ctx_Err of
        Some err \<Rightarrow> (Some (ContextError err), st)
      | None \<Rightarrow>
          (let c = collector st;
               c = c\<lparr>pageCounter := pageCounter c + 1\<rparr>;
               c = c\<lparr>itemCounter := itemCounter c + of_nat (length (Items e))\<rparr>;
               (r, w) = write_items enc (csvWriter st) (Items e)
           in (r, \<lparr>collector = c, csvWriter = w\<rparr>)))"

text \<open>
  \<^verbatim>\<open>Pages(ctx, f)\<close> of the client library hands each page of the listing to the callback
  and stops at the first error the callback returns. A listing is the finite sequence of
  pages the remote API delivers, each with the state of the context at the moment the page
  is handed over. A failure of the transport ends a run before a page is delivered and is
  not part of a listing.
\<close>

fun Pages ::
  "(string list \<Rightarrow> string) \<Rightarrow> callback_state \<Rightarrow> (context_error option \<times> Events) list
     \<Rightarrow> error option \<times> callback_state" where
  "Pages enc st [] = (None, st)"
| "Pages enc st ((ctx_Err, e) # rest) =
     (case callback enc ctx_Err st e of
        (Some err, st') \<Rightarrow> (Some err, st')
      | (None, st') \<Rightarrow> Pages enc st' rest)"

section \<open>The credential store\<close>

text \<open>
  The file system is the content of the files that can be opened for reading, and the
  paths at which \<^verbatim>\<open>os.OpenFile\<close> with \<^verbatim>\<open>O_RDWR|O_CREATE|O_TRUNC\<close> succeeds.

  The token is an \<^verbatim>\<open>oauth2.Token\<close>, a type of the OAuth library, and its JSON form is
  the work of \<^verbatim>\<open>encoding/json\<close>: the token is a type parameter, and the codec is the
  parameter \<open>jsonlib\<close>, \<open>None\<close> being the error of \<^verbatim>\<open>Encode\<close> or of \<^verbatim>\<open>Decode\<close>.
\<close>

record filesystem =
  files :: "string \<rightharpoonup> string"
  creatable :: "string \<Rightarrow> bool"

record 'tok jsonlib =
  encode :: "'tok \<Rightarrow> string option"
  decode :: "string \<Rightarrow> 'tok option"

datatype load_error = OpenError | DecodeError

subsection \<open>tokenFromFile (lines 54 to 63)\<close>

definition tokenFromFile :: "'tok jsonlib \<Rightarrow> filesystem \<Rightarrow> string \<Rightarrow> load_error + 'tok" where
  "tokenFromFile J fs file =
     (case files fs file of
        None \<Rightarrow> Inl OpenError
      | Some content \<Rightarrow>
          (case decode J content of
             None \<Rightarrow> Inl DecodeError
           | Some tok \<Rightarrow> Inr tok))"

subsection \<open>saveToken (lines 66 to 74)\<close>

text \<open>
  A failure to open the file is fatal (line 70). The file is truncated when it is opened;
  the result of \<^verbatim>\<open>Encode\<close> at line 73 is dropped, so when the encoding fails the file is
  left empty and \<^verbatim>\<open>saveToken\<close> returns as usual.
\<close>

definition saveToken :: "'tok jsonlib \<Rightarrow> filesystem \<Rightarrow> string \<Rightarrow> 'tok \<Rightarrow> string + filesystem" where
  "saveToken J fs path token =
     (if \<not> creatable fs path then Inl ''Unable to cache oauth token''
      else (let fs1 = fs\<lparr>files := (files fs)(path \<mapsto> [])\<rparr>
            in case encode J token of
                 None \<Rightarrow> Inr fs1
               | Some bytes \<Rightarrow> Inr (fs1\<lparr>files := (files fs1)(path \<mapsto> bytes)\<rparr>)))"

section \<open>Sample inputs\<close>

text \<open>
  Two instants, midnight UTC of January 1 and of January 2, 2024, and a library that
  knows how to read and print them. The clock of \<open>demo_timelib\<close> stands still.
\<close>

definition t_jan1 :: Time where
  "t_jan1 = \<lparr>nanos = 63839664000000000000, zone = 0\<rparr>"

definition t_jan2 :: Time where
  "t_jan2 = \<lparr>nanos = 63839750400000000000, zone = 0\<rparr>"

definition demo_timelib :: timelib where
  "demo_timelib =
     \<lparr>parse = (\<lambda>s. if s = ''2024-01-01T00:00:00Z'' then Inr t_jan1
                   else if s = ''2024-01-02T00:00:00Z'' then Inr t_jan2
                   else Inl ''cannot parse''),
      format = (\<lambda>t. if t = t_jan1 then ''2024-01-01T00:00:00Z''
                    else if t = t_jan2 then ''2024-01-02T00:00:00Z''
                    else ''other''),
      now_start = t_jan1, now_end = t_jan1\<rparr>"

text \<open>
  The output: a stream that takes every write, and one that takes none (a full device).
\<close>

definition good_stdout :: ostream where
  "good_stdout = \<lparr>written = [], broken = False\<rparr>"

definition full_stdout :: ostream where
  "full_stdout = \<lparr>written = [], broken = True\<rparr>"

text \<open>
  The CSV form of a record none of whose fields needs quoting: the fields joined by
  commas, then a newline.
\<close>

definition plain_enc :: "string list \<Rightarrow> string" where
  "plain_enc cells =
     concat (case cells of [] \<Rightarrow> [] | f # fs \<Rightarrow> f # map ((#) CHR '','') fs) @ [CHR 0x0A]"

text \<open>
  Two events, one with a precise start and one with a date only, and two listings of
  them: both pages delivered, and the deadline passed before the second page.
\<close>

definition standup :: Event where
  "standup = \<lparr>Start = Some \<lparr>DateTime = ''2024-01-02T10:00:00Z'', Date = []\<rparr>,
              Summary = ''Standup''\<rparr>"

definition holiday :: Event where
  "holiday = \<lparr>Start = Some \<lparr>DateTime = [], Date = ''2024-01-03''\<rparr>, Summary = ''Holiday''\<rparr>"

definition demo_listing :: "(context_error option \<times> Events) list" where
  "demo_listing = [(None, \<lparr>Items = [standup]\<rparr>), (None, \<lparr>Items = [holiday]\<rparr>)]"

definition cut_listing :: "(context_error option \<times> Events) list" where
  "cut_listing = [(None, \<lparr>Items = [standup]\<rparr>), (Some DeadlineExceeded, \<lparr>Items = [holiday]\<rparr>)]"

text \<open>A codec that knows one token, and a file system that holds a stale token file.\<close>

definition demo_json :: "string jsonlib" where
  "demo_json =
     \<lparr>encode = (\<lambda>t. Some (''{'' @ t @ ''}'')),
      decode = (\<lambda>s. if s = ''{abc}'' then Some ''abc'' else None)\<rparr>"

text \<open>
  The same codec when \<^verbatim>\<open>Encode\<close> returns an error: the device has no room left for the
  bytes, or the expiry of the token lies in a year that its JSON form cannot hold. Reading
  an empty file is an error of \<^verbatim>\<open>Decode\<close> with either codec.
\<close>

definition failing_json :: "string jsonlib" where
  "failing_json = \<lparr>encode = (\<lambda>t. None), decode = decode demo_json\<rparr>"

definition demo_fs :: filesystem where
  "demo_fs = \<lparr>files = [''token.json'' \<mapsto> ''stale''], creatable = (\<lambda>p. True)\<rparr>"

section \<open>What the specification says of rows\<close>

text \<open>
  The specification maps an event to a row of two fields: the date is the precise start
  if it is not empty and the date-only field otherwise, and the second field is the
  summary. \<open>spec_row\<close> follows these words; an event without a start has no row.
\<close>

definition spec_row :: "Event \<Rightarrow> string list option" where
  "spec_row item =
     (case Start item of
        None \<Rightarrow> None
      | Some start \<Rightarrow>
          Some [if DateTime start \<noteq> [] then DateTime start else Date start, Summary item])"

text \<open>The items of a listing, page after page.\<close>

definition listing_items :: "(context_error option \<times> Events) list \<Rightarrow> Event list" where
  "listing_items ps = concat (map (\<lambda>p. Items (snd p)) ps)"

section \<open>Properties of the date range resolver and of the query\<close>

lemma resolve_start_from: "resolve_start L (fl\<lparr>dateFromSpan := d\<rparr>) = resolve_start L fl"
  by (simp add: resolve_start_def)

lemma resolve_end_from: "resolve_end L (fl\<lparr>dateFromSpan := d\<rparr>) = resolve_end L fl"
  by (simp add: resolve_end_def Let_def cong: sum.case_cong)

lemma resolve_window_from: "resolve_window L (fl\<lparr>dateFromSpan := d\<rparr>) = resolve_window L fl"
  by (simp add: resolve_window_def resolve_start_from resolve_end_from cong: sum.case_cong)

lemma resolve_window_limit: "resolve_window L (fl\<lparr>limit := n\<rparr>) = resolve_window L fl"
proof -
  have "resolve_start L (fl\<lparr>limit := n\<rparr>) = resolve_start L fl"
    by (simp add: resolve_start_def)
  moreover have "resolve_end L (fl\<lparr>limit := n\<rparr>) = resolve_end L fl"
    by (simp add: resolve_end_def Let_def cong: sum.case_cong)
  ultimately show ?thesis
    by (simp add: resolve_window_def cong: sum.case_cong)
qed

text \<open>
  Claim C1 says that the \<^verbatim>\<open>from\<close> offset is added to the start of the window. The code
  adds it at line 109 to \<^verbatim>\<open>dateEnd\<close>, not to \<^verbatim>\<open>dateStart\<close>: run with
  \<^verbatim>\<open>-start 2024-01-01T00:00:00Z -end 2024-01-02T00:00:00Z -from 1h\<close>, the program
  resolves the start to midnight of January 1, which is not that instant moved by one
  hour.
\<close>

theorem from_offset_lost_example:
  "resolve_window demo_timelib
     (default_Flags\<lparr>dateStartString := ''2024-01-01T00:00:00Z'',
                    dateEndString := ''2024-01-02T00:00:00Z'',
                    dateFromSpan := 3600000000000\<rparr>) = Inr (t_jan1, t_jan2)
   \<and> resolve_start demo_timelib
     (default_Flags\<lparr>dateStartString := ''2024-01-01T00:00:00Z'',
                    dateEndString := ''2024-01-02T00:00:00Z'',
                    dateFromSpan := 3600000000000\<rparr>) = Inr t_jan1
   \<and> Add t_jan1 3600000000000 \<noteq> t_jan1"
  by (simp add: resolve_window_def resolve_start_def resolve_end_def Let_def default_Flags_def
      demo_timelib_def t_jan1_def t_jan2_def Add_def After_def)

text \<open>
  Claim C5: when the start and the end strings are given and parse, the parsed end is
  after the parsed start and both offsets are zero, the resolver returns the two parsed
  instants as they are.
\<close>

theorem zero_offsets_keep_window:
  assumes "dateStartString fl \<noteq> []" and "dateEndString fl \<noteq> []"
    and "parse L (dateStartString fl) = Inr s" and "parse L (dateEndString fl) = Inr e"
    and "After e s" and "dateFromSpan fl = 0" and "dateToSpan fl = 0"
  shows "resolve_window L fl = Inr (s, e)"
  using assms by (simp add: resolve_window_def resolve_start_def resolve_end_def Let_def Add_def)

theorem zero_offsets_keep_window_witness:
  "resolve_window demo_timelib
     (default_Flags\<lparr>dateStartString := ''2024-01-01T00:00:00Z'',
                    dateEndString := ''2024-01-02T00:00:00Z''\<rparr>) = Inr (t_jan1, t_jan2)"
  by (rule zero_offsets_keep_window)
     (simp_all add: default_Flags_def demo_timelib_def After_def t_jan1_def t_jan2_def)

text \<open>
  Claim C6: when the resolved end is not after the resolved start, the run ends at line
  122 with the diagnostic that carries the formatted start and the formatted end, whatever
  the state of the credentials, and the network has not been used.
\<close>

theorem empty_window_is_fatal:
  assumes "resolve_start L fl = Inr s" and "resolve_end L fl = Inr e" and "\<not> After e s"
  shows "main L client fl =
           Fatal_window (''End date must be after start date: '' @ format L s @ '' -> '' @ format L e)
         \<and> \<not> network_used (main L client fl)"
  using assms by (simp add: main_def resolve_window_def range_message_def)

theorem empty_window_is_fatal_witness:
  "main demo_timelib None
     (default_Flags\<lparr>dateStartString := ''2024-01-02T00:00:00Z'',
                    dateEndString := ''2024-01-01T00:00:00Z''\<rparr>) =
     Fatal_window ''End date must be after start date: 2024-01-02T00:00:00Z -> 2024-01-01T00:00:00Z''
   \<and> \<not> network_used (main demo_timelib None
     (default_Flags\<lparr>dateStartString := ''2024-01-02T00:00:00Z'',
                    dateEndString := ''2024-01-01T00:00:00Z''\<rparr>))"
  using empty_window_is_fatal [of demo_timelib
     "default_Flags\<lparr>dateStartString := ''2024-01-02T00:00:00Z'',
                    dateEndString := ''2024-01-01T00:00:00Z''\<rparr>" t_jan2 t_jan1 None]
  by (simp add: resolve_start_def resolve_end_def Let_def default_Flags_def demo_timelib_def
      After_def Add_def t_jan1_def t_jan2_def)

text \<open>
  Claim C7: a run that reaches line 145 sends the same request whatever the value of
  \<^verbatim>\<open>-limit\<close>: deleted events left out, recurring events expanded, the window given by
  the formatted start and end, ten results a page, ordered by start time.
\<close>

theorem query_parameters:
  assumes "resolve_window L fl = Inr (s, e)"
  shows "main L None (fl\<lparr>limit := n\<rparr>) =
           Fetch \<lparr>calendarId = ''primary'', showDeleted = False, singleEvents = True,
                  timeMin = format L s, timeMax = format L e,
                  maxResults = 10, orderBy = ''startTime''\<rparr>"
  using assms by (simp add: main_def events_call_def resolve_window_limit)

theorem query_parameters_witness:
  "main demo_timelib None
     (default_Flags\<lparr>dateStartString := ''2024-01-01T00:00:00Z'',
                    dateEndString := ''2024-01-02T00:00:00Z'', limit := 3\<rparr>) =
     Fetch \<lparr>calendarId = ''primary'', showDeleted = False, singleEvents = True,
            timeMin = ''2024-01-01T00:00:00Z'', timeMax = ''2024-01-02T00:00:00Z'',
            maxResults = 10, orderBy = ''startTime''\<rparr>"
  using query_parameters [of demo_timelib
     "default_Flags\<lparr>dateStartString := ''2024-01-01T00:00:00Z'',
                    dateEndString := ''2024-01-02T00:00:00Z''\<rparr>" t_jan1 t_jan2 3]
  by (simp add: resolve_window_def resolve_start_def resolve_end_def Let_def default_Flags_def
      demo_timelib_def After_def Add_def t_jan1_def t_jan2_def)

text \<open>
  Claim C10: the resolved window, and with it the whole run, is the same for any two
  values of the \<^verbatim>\<open>from\<close> offset.
\<close>

theorem from_flag_without_effect:
  "resolve_window L (fl\<lparr>dateFromSpan := d1\<rparr>) = resolve_window L (fl\<lparr>dateFromSpan := d2\<rparr>)
   \<and> main L client (fl\<lparr>dateFromSpan := d1\<rparr>) = main L client (fl\<lparr>dateFromSpan := d2\<rparr>)"
  by (simp add: main_def resolve_window_from)

section \<open>Properties of the page collector and of the record writer\<close>

text \<open>
  On a stream that takes its writes, a \<^verbatim>\<open>Write\<close> followed by a \<^verbatim>\<open>Flush\<close> leaves the
  buffer empty and the record at the end of the stream.
\<close>

lemma write_then_flush:
  assumes "werr w = None" and "\<not> broken (out w)"
  shows "fst (csv_Write enc w r) = None"
    and "csv_Flush (snd (csv_Write enc w r)) =
           w\<lparr>buf := [], out := (out w)\<lparr>written := written (out w) @ buf w @ enc r\<rparr>\<rparr>"
  using assms by (auto simp: csv_Write_def csv_Flush_def stream_Write_def Let_def)

lemma WriteEvent_Some:
  "Start item = Some start \<Longrightarrow>
   WriteEvent enc w item =
     csv_Write enc w [if DateTime start \<noteq> [] then DateTime start else Date start, Summary item]"
  by (simp add: WriteEvent_def Let_def)

lemma write_items_step:
  assumes "Start item = Some start" and "spec_row item = Some r"
    and "werr w = None" and "\<not> broken (out w)"
  shows "write_items enc w (item # items) =
           write_items enc
             (w\<lparr>buf := [], out := (out w)\<lparr>written := written (out w) @ buf w @ enc r\<rparr>\<rparr>) items"
proof -
  from assms(1,2)
  have r: "r = [if DateTime start \<noteq> [] then DateTime start else Date start, Summary item]"
    by (simp add: spec_row_def)
  obtain e w1 where cw: "csv_Write enc w r = (e, w1)"
    by (cases "csv_Write enc w r")
  from write_then_flush [OF assms(3,4), of enc r] cw
  have "e = None"
    and "csv_Flush w1 = w\<lparr>buf := [], out := (out w)\<lparr>written := written (out w) @ buf w @ enc r\<rparr>\<rparr>"
    by simp_all
  moreover have "WriteEvent enc w item = (e, w1)"
    using WriteEvent_Some [OF assms(1), of enc w] cw r by simp
  ultimately show ?thesis by simp
qed

lemma write_items_healthy:
  assumes "werr w = None" and "buf w = []" and "\<not> broken (out w)"
    and "\<forall>item \<in> set items. Start item \<noteq> None"
  shows "write_items enc w items =
           (None, w\<lparr>out := (out w)\<lparr>written :=
              written (out w) @ concat (map enc (List.map_filter spec_row items))\<rparr>\<rparr>)"
  using assms
proof (induction items arbitrary: w)
  case Nil
  then show ?case by (simp add: map_filter_simps)
next
  case (Cons item items)
  from Cons.prems obtain start where st: "Start item = Some start" by auto
  then obtain r where r: "spec_row item = Some r" by (simp add: spec_row_def)
  let ?w' = "w\<lparr>buf := [], out := (out w)\<lparr>written := written (out w) @ buf w @ enc r\<rparr>\<rparr>"
  have step: "write_items enc w (item # items) = write_items enc ?w' items"
    using st r Cons.prems(1,3) by (rule write_items_step)
  have "write_items enc ?w' items =
          (None, ?w'\<lparr>out := (out ?w')\<lparr>written :=
              written (out ?w') @ concat (map enc (List.map_filter spec_row items))\<rparr>\<rparr>)"
    by (rule Cons.IH) (use Cons.prems in simp_all)
  then show ?case
    unfolding step using Cons.prems(2) by (simp add: r)
qed

lemma map_filter_append:
  "List.map_filter f (xs @ ys) = List.map_filter f xs @ List.map_filter f ys"
  by (simp add: List.map_filter_def)

lemma length_map_filter_spec_row:
  "\<forall>item \<in> set items. Start item \<noteq> None \<Longrightarrow>
   length (List.map_filter spec_row items) = length items"
  by (induction items) (auto simp: map_filter_simps spec_row_def)

text \<open>The counters after a call that was not cancelled, whatever the writes did.\<close>

lemma callback_counters:
  "collector (snd (callback enc None st e)) =
     (collector st)\<lparr>pageCounter := pageCounter (collector st) + 1,
                    itemCounter := itemCounter (collector st) + of_nat (length (Items e))\<rparr>"
  by (simp add: callback_def Let_def split: prod.splits)

lemma callback_healthy:
  assumes "werr (csvWriter st) = None" and "buf (csvWriter st) = []"
    and "\<not> broken (out (csvWriter st))"
    and "\<forall>item \<in> set (Items e). Start item \<noteq> None"
  shows "callback enc None st e =
           (None,
            \<lparr>collector = (collector st)\<lparr>pageCounter := pageCounter (collector st) + 1,
                 itemCounter := itemCounter (collector st) + of_nat (length (Items e))\<rparr>,
             csvWriter = (csvWriter st)\<lparr>out := (out (csvWriter st))\<lparr>written :=
                 written (out (csvWriter st))
                   @ concat (map enc (List.map_filter spec_row (Items e)))\<rparr>\<rparr>\<rparr>)"
  using write_items_healthy [OF assms, of enc]
  by (simp add: callback_def Let_def)

lemma Pages_healthy:
  assumes "werr (csvWriter st) = None" and "buf (csvWriter st) = []"
    and "\<not> broken (out (csvWriter st))"
    and "\<forall>p \<in> set ps. fst p = None"
    and "\<forall>item \<in> set (listing_items ps). Start item \<noteq> None"
  shows "Pages enc st ps =
           (None,
            \<lparr>collector = (collector st)\<lparr>pageCounter := pageCounter (collector st) + of_nat (length ps),
                 itemCounter := itemCounter (collector st) + of_nat (length (listing_items ps))\<rparr>,
             csvWriter = (csvWriter st)\<lparr>out := (out (csvWriter st))\<lparr>written :=
                 written (out (csvWriter st))
                   @ concat (map enc (List.map_filter spec_row (listing_items ps)))\<rparr>\<rparr>\<rparr>)"
  using assms
proof (induction ps arbitrary: st)
  case Nil
  then show ?case by (simp add: listing_items_def map_filter_simps)
next
  case (Cons p ps)
  obtain c e where p: "p = (c, e)" by (cases p)
  with Cons.prems(4) have c: "c = None" by simp
  have items: "listing_items (p # ps) = Items e @ listing_items ps"
    by (simp add: listing_items_def p)
  let ?st' = "\<lparr>collector = (collector st)\<lparr>pageCounter := pageCounter (collector st) + 1,
                 itemCounter := itemCounter (collector st) + of_nat (length (Items e))\<rparr>,
             csvWriter = (csvWriter st)\<lparr>out := (out (csvWriter st))\<lparr>written :=
                 written (out (csvWriter st))
                   @ concat (map enc (List.map_filter spec_row (Items e)))\<rparr>\<rparr>\<rparr>"
  have cb: "callback enc None st e = (None, ?st')"
    by (rule callback_healthy) (use Cons.prems items in auto)
  have "Pages enc ?st' ps =
           (None,
            \<lparr>collector = (collector ?st')\<lparr>pageCounter := pageCounter (collector ?st') + of_nat (length ps),
                 itemCounter := itemCounter (collector ?st') + of_nat (length (listing_items ps))\<rparr>,
             csvWriter = (csvWriter ?st')\<lparr>out := (out (csvWriter ?st'))\<lparr>written :=
                 written (out (csvWriter ?st'))
                   @ concat (map enc (List.map_filter spec_row (listing_items ps)))\<rparr>\<rparr>\<rparr>)"
    by (rule Cons.IH) (use Cons.prems items in auto)
  then show ?case
    by (simp add: p c cb items [unfolded p c] map_filter_append add.assoc)
qed

lemma sint_of_nat_64: "n < 2 ^ 63 \<Longrightarrow> sint (of_nat n :: 64 word) = int n"
proof -
  assume "n < 2 ^ 63"
  then have "int n < 2 ^ 63"
    by (metis of_nat_less_iff of_nat_numeral of_nat_power)
  then have "signed_take_bit 63 (int n) = int n"
    by (intro signed_take_bit_int_eq_self) simp_all
  then show ?thesis
    by (simp add: signed_of_nat)
qed

lemma Pages_append:
  "Pages enc st xs = (None, st') \<Longrightarrow> Pages enc st (xs @ ys) = Pages enc st' ys"
proof (induction xs arbitrary: st)
  case Nil
  then show ?case by simp
next
  case (Cons p xs)
  obtain c e where p: "p = (c, e)" by (cases p)
  obtain r st1 where cb: "callback enc c st e = (r, st1)" by (cases "callback enc c st e")
  show ?case
  proof (cases r)
    case None
    with Cons.prems p cb have "Pages enc st1 xs = (None, st')" by simp
    then have "Pages enc st1 (xs @ ys) = Pages enc st' ys" by (rule Cons.IH)
    with None p cb show ?thesis by simp
  next
    case (Some err)
    with Cons.prems p cb show ?thesis by simp
  qed
qed

lemma Pages_cancelled:
  "Pages enc st ((Some err, e) # rest) = (Some (ContextError err), st)"
  by (simp add: callback_def)

text \<open>
  Claim C2: over a listing of N pages with M items in all, none of them delivered under
  a cancelled context, with an output stream that takes its writes and events that have
  a start, the run returns no error, the counters read N and M (both below \<open>2 ^ 63\<close>, the
  range of the counters), and the stream has received the M rows of the items in the
  order of the listing, nothing being left in the buffer. The item counter is raised by
  the size of the page whatever becomes of the writes of that page: the last conjunct
  holds for every state and every page, also when the first write fails.
\<close>

theorem pages_counted_and_written:
  assumes "\<forall>p \<in> set ps. fst p = None"
    and "\<not> broken w"
    and "\<forall>item \<in> set (listing_items ps). Start item \<noteq> None"
    and "length ps < 2 ^ 63" and "length (listing_items ps) < 2 ^ 63"
  shows "(\<exists>st. Pages enc (WriteCallback new_EventCollector w) ps = (None, st)
           \<and> sint (pageCounter (collector st)) = int (length ps)
           \<and> sint (itemCounter (collector st)) = int (length (listing_items ps))
           \<and> written (out (csvWriter st)) =
               written w @ concat (map enc (List.map_filter spec_row (listing_items ps)))
           \<and> buf (csvWriter st) = []
           \<and> length (List.map_filter spec_row (listing_items ps)) = length (listing_items ps))
         \<and> itemCounter (collector (snd (callback enc None st0 e))) =
             itemCounter (collector st0) + of_nat (length (Items e))"
proof -
  let ?st = "WriteCallback new_EventCollector w"
  have "Pages enc ?st ps =
           (None,
            \<lparr>collector = (collector ?st)\<lparr>pageCounter := pageCounter (collector ?st) + of_nat (length ps),
                 itemCounter := itemCounter (collector ?st) + of_nat (length (listing_items ps))\<rparr>,
             csvWriter = (csvWriter ?st)\<lparr>out := (out (csvWriter ?st))\<lparr>written :=
                 written (out (csvWriter ?st))
                   @ concat (map enc (List.map_filter spec_row (listing_items ps)))\<rparr>\<rparr>\<rparr>)"
    by (rule Pages_healthy)
       (use assms in \<open>simp_all add: WriteCallback_def csv_NewWriter_def\<close>)
  moreover have "sint (of_nat (length ps) :: 64 word) = int (length ps)"
    using assms(4) by (rule sint_of_nat_64)
  moreover have "sint (of_nat (length (listing_items ps)) :: 64 word) = int (length (listing_items ps))"
    using assms(5) by (rule sint_of_nat_64)
  moreover have "length (List.map_filter spec_row (listing_items ps)) = length (listing_items ps)"
    using assms(3) by (rule length_map_filter_spec_row)
  ultimately show ?thesis
    by (simp add: WriteCallback_def csv_NewWriter_def new_EventCollector_def callback_counters)
qed

theorem pages_counted_and_written_witness:
  "\<exists>st. Pages plain_enc (WriteCallback new_EventCollector good_stdout) demo_listing = (None, st)
        \<and> sint (pageCounter (collector st)) = 2
        \<and> sint (itemCounter (collector st)) = 2
        \<and> written (out (csvWriter st)) =
            ''2024-01-02T10:00:00Z,Standup'' @ [CHR 0x0A] @ ''2024-01-03,Holiday'' @ [CHR 0x0A]"
proof -
  have "\<forall>p \<in> set demo_listing. fst p = None"
    by (simp add: demo_listing_def)
  moreover have "\<not> broken good_stdout"
    by (simp add: good_stdout_def)
  moreover have "\<forall>item \<in> set (listing_items demo_listing). Start item \<noteq> None"
    by (simp add: demo_listing_def listing_items_def standup_def holiday_def)
  moreover have "length demo_listing < 2 ^ 63" "length (listing_items demo_listing) < 2 ^ 63"
    by (simp_all add: demo_listing_def listing_items_def)
  ultimately have
    "(\<exists>st. Pages plain_enc (WriteCallback new_EventCollector good_stdout) demo_listing = (None, st)
         \<and> sint (pageCounter (collector st)) = int (length demo_listing)
         \<and> sint (itemCounter (collector st)) = int (length (listing_items demo_listing))
         \<and> written (out (csvWriter st)) =
             written good_stdout
               @ concat (map plain_enc (List.map_filter spec_row (listing_items demo_listing)))
         \<and> buf (csvWriter st) = []
         \<and> length (List.map_filter spec_row (listing_items demo_listing)) =
             length (listing_items demo_listing))
     \<and> itemCounter (collector (snd (callback plain_enc None
           (WriteCallback new_EventCollector good_stdout) \<lparr>Items = []\<rparr>))) =
         itemCounter (collector (WriteCallback new_EventCollector good_stdout))
           + of_nat (length (Items \<lparr>Items = []\<rparr>))"
    by (rule pages_counted_and_written)
  then obtain st where
    "Pages plain_enc (WriteCallback new_EventCollector good_stdout) demo_listing = (None, st)"
    "sint (pageCounter (collector st)) = int (length demo_listing)"
    "sint (itemCounter (collector st)) = int (length (listing_items demo_listing))"
    "written (out (csvWriter st)) =
       written good_stdout
         @ concat (map plain_enc (List.map_filter spec_row (listing_items demo_listing)))"
    by blast
  moreover have "length demo_listing = 2" "length (listing_items demo_listing) = 2"
    by (simp_all add: demo_listing_def listing_items_def)
  moreover have "written good_stdout
         @ concat (map plain_enc (List.map_filter spec_row (listing_items demo_listing))) =
       ''2024-01-02T10:00:00Z,Standup'' @ [CHR 0x0A] @ ''2024-01-03,Holiday'' @ [CHR 0x0A]"
    by (simp add: demo_listing_def good_stdout_def listing_items_def standup_def holiday_def
        spec_row_def plain_enc_def)
  ultimately show ?thesis by simp
qed

text \<open>
  Cancellation on a stream that takes its writes: when the context is found cancelled at
  page k and at no page before it, the run returns that error of the context, and the
  stream holds the rows of the pages before k and nothing else.
\<close>

theorem cancellation_stops_before_page:
  assumes "1 \<le> k" and "k \<le> length ps"
    and "fst (ps ! (k - 1)) = Some err"
    and "\<forall>i < k - 1. fst (ps ! i) = None"
    and "\<not> broken w"
    and "\<forall>item \<in> set (listing_items (take (k - 1) ps)). Start item \<noteq> None"
  shows "\<exists>st. Pages enc (WriteCallback c w) ps = (Some (ContextError err), st)
           \<and> written (out (csvWriter st)) =
               written w @ concat (map enc (List.map_filter spec_row (listing_items (take (k - 1) ps))))
           \<and> buf (csvWriter st) = []"
proof -
  let ?pre = "take (k - 1) ps"
  let ?st = "WriteCallback c w"
  from assms(1,2) have lt: "k - 1 < length ps" by simp
  then have split: "ps = ?pre @ ps ! (k - 1) # drop k ps"
    using id_take_nth_drop [of "k - 1" ps] assms(1) by simp
  obtain e where pk: "ps ! (k - 1) = (Some err, e)"
    using assms(3) by (cases "ps ! (k - 1)") simp
  have none: "\<forall>p \<in> set ?pre. fst p = None"
  proof
    fix p assume "p \<in> set ?pre"
    then obtain i where "i < length ?pre" and "?pre ! i = p"
      by (auto simp: in_set_conv_nth)
    with assms(4) show "fst p = None" by auto
  qed
  let ?st' = "\<lparr>collector = (collector ?st)\<lparr>pageCounter := pageCounter (collector ?st) + of_nat (length ?pre),
                 itemCounter := itemCounter (collector ?st) + of_nat (length (listing_items ?pre))\<rparr>,
             csvWriter = (csvWriter ?st)\<lparr>out := (out (csvWriter ?st))\<lparr>written :=
                 written (out (csvWriter ?st))
                   @ concat (map enc (List.map_filter spec_row (listing_items ?pre)))\<rparr>\<rparr>\<rparr>"
  have pre: "Pages enc ?st ?pre = (None, ?st')"
    by (rule Pages_healthy)
       (use assms(5,6) none in \<open>simp_all add: WriteCallback_def csv_NewWriter_def\<close>)
  have "Pages enc ?st ps = Pages enc ?st' ((Some err, e) # drop k ps)"
    using Pages_append [OF pre, of "(Some err, e) # drop k ps"] split pk by simp
  then have "Pages enc ?st ps = (Some (ContextError err), ?st')"
    by (simp only: Pages_cancelled)
  then show ?thesis
    by (simp add: WriteCallback_def csv_NewWriter_def)
qed

theorem cancellation_stops_before_page_witness:
  "\<exists>st. Pages plain_enc (WriteCallback new_EventCollector good_stdout) cut_listing =
           (Some (ContextError DeadlineExceeded), st)
        \<and> written (out (csvWriter st)) = ''2024-01-02T10:00:00Z,Standup'' @ [CHR 0x0A]"
proof -
  have "(1::nat) \<le> 2" and "2 \<le> length cut_listing"
    and "fst (cut_listing ! (2 - 1)) = Some DeadlineExceeded"
    and "\<forall>i < 2 - 1. fst (cut_listing ! i) = None"
    and "\<not> broken good_stdout"
    and "\<forall>item \<in> set (listing_items (take (2 - 1) cut_listing)). Start item \<noteq> None"
    by (simp_all add: cut_listing_def good_stdout_def listing_items_def standup_def)
  then have
    "\<exists>st. Pages plain_enc (WriteCallback new_EventCollector good_stdout) cut_listing =
            (Some (ContextError DeadlineExceeded), st)
         \<and> written (out (csvWriter st)) =
             written good_stdout
               @ concat (map plain_enc
                   (List.map_filter spec_row (listing_items (take (2 - 1) cut_listing))))
         \<and> buf (csvWriter st) = []"
    by (rule cancellation_stops_before_page)
  moreover have "written good_stdout
               @ concat (map plain_enc
                   (List.map_filter spec_row (listing_items (take (2 - 1) cut_listing)))) =
       ''2024-01-02T10:00:00Z,Standup'' @ [CHR 0x0A]"
    by (simp add: cut_listing_def good_stdout_def listing_items_def standup_def
        spec_row_def plain_enc_def)
  ultimately show ?thesis by auto
qed

text \<open>
  Claim C3 says that when the context is cancelled before page k is handed to the
  callback, exactly the rows of the pages before k have been emitted. The error of the
  context is returned and no row of page k or of a later page is written, on every stream.
  But the rows of the earlier pages are not always there: line 181 drops the outcome of
  \<^verbatim>\<open>Flush\<close>, so on a stream that takes no write the callback returns nil for page 1,
  page 2 is handed over, the deadline has passed, and the run ends with the error of the
  context though the row of page 1 never reached the stream.
\<close>

theorem cancelled_run_lost_row:
  "Pages plain_enc (WriteCallback new_EventCollector full_stdout) cut_listing =
     (Some (ContextError DeadlineExceeded),
      \<lparr>collector = \<lparr>events = [], pageCounter = 1, itemCounter = 1\<rparr>,
       csvWriter = \<lparr>buf = ''2024-01-02T10:00:00Z,Standup'' @ [CHR 0x0A],
                    werr = Some StreamError, out = full_stdout\<rparr>\<rparr>)
   \<and> written full_stdout = []
   \<and> List.map_filter spec_row (listing_items (take 1 cut_listing)) =
       [[''2024-01-02T10:00:00Z'', ''Standup'']]"
  by (simp add: callback_def WriteCallback_def new_EventCollector_def full_stdout_def
      csv_NewWriter_def WriteEvent_def csv_Write_def csv_Flush_def stream_Write_def
      cut_listing_def listing_items_def spec_row_def standup_def plain_enc_def Let_def)

text \<open>
  Claim C4: the record \<^verbatim>\<open>WriteEvent\<close> hands to the CSV writer has two fields, the date
  and the summary, the date being the precise start when it is not empty and the
  date-only field otherwise; written to a stream that takes its writes and flushed, it is
  the row that reaches the stream.
\<close>

theorem event_row_fields:
  assumes "Start item = Some start" and "werr w = None" and "\<not> broken (out w)"
  shows "WriteEvent enc w item =
           csv_Write enc w
             [if DateTime start \<noteq> [] then DateTime start else Date start, Summary item]
         \<and> fst (WriteEvent enc w item) = None
         \<and> written (out (csv_Flush (snd (WriteEvent enc w item)))) =
             written (out w) @ buf w
               @ enc [if DateTime start \<noteq> [] then DateTime start else Date start, Summary item]"
  using write_then_flush [OF assms(2,3), of enc] WriteEvent_Some [OF assms(1), of enc w]
  by simp

theorem event_row_fields_witness:
  "fst (WriteEvent plain_enc (csv_NewWriter good_stdout) holiday) = None
   \<and> written (out (csv_Flush (snd (WriteEvent plain_enc (csv_NewWriter good_stdout) holiday)))) =
       ''2024-01-03,Holiday'' @ [CHR 0x0A]"
proof -
  have "Start holiday = Some \<lparr>DateTime = [], Date = ''2024-01-03''\<rparr>"
    and "werr (csv_NewWriter good_stdout) = None"
    and "\<not> broken (out (csv_NewWriter good_stdout))"
    by (simp_all add: holiday_def csv_NewWriter_def good_stdout_def)
  from event_row_fields [OF this, of plain_enc, THEN conjunct2]
  show ?thesis
    by (simp add: csv_NewWriter_def good_stdout_def plain_enc_def) (simp add: holiday_def)
qed

text \<open>
  Claim C8 says that the callback returns an error whenever the write to the output
  stream fails. Lines 177 to 181 return the error of \<^verbatim>\<open>Write\<close> only; \<^verbatim>\<open>Flush\<close>, where
  the buffered record goes to the stream, returns nothing and the program never asks the
  writer for its error. With one event and a stream that takes no write, the record stays
  in the buffer, the writer keeps the error of the stream, and the callback, and with it
  the whole run, returns no error.
\<close>

theorem flush_failure_not_reported:
  "callback plain_enc None (WriteCallback new_EventCollector full_stdout) \<lparr>Items = [standup]\<rparr> =
     (None,
      \<lparr>collector = \<lparr>events = [], pageCounter = 1, itemCounter = 1\<rparr>,
       csvWriter = \<lparr>buf = ''2024-01-02T10:00:00Z,Standup'' @ [CHR 0x0A],
                    werr = Some StreamError, out = full_stdout\<rparr>\<rparr>)
   \<and> Pages plain_enc (WriteCallback new_EventCollector full_stdout) [(None, \<lparr>Items = [standup]\<rparr>)] =
     (None,
      \<lparr>collector = \<lparr>events = [], pageCounter = 1, itemCounter = 1\<rparr>,
       csvWriter = \<lparr>buf = ''2024-01-02T10:00:00Z,Standup'' @ [CHR 0x0A],
                    werr = Some StreamError, out = full_stdout\<rparr>\<rparr>)"
  by (simp add: callback_def WriteCallback_def new_EventCollector_def full_stdout_def
      csv_NewWriter_def WriteEvent_def csv_Write_def csv_Flush_def stream_Write_def
      standup_def plain_enc_def Let_def)

section \<open>Properties of the credential store\<close>

text \<open>
  When the file can be opened for writing and \<^verbatim>\<open>Encode\<close> succeeds, \<^verbatim>\<open>saveToken\<close>
  replaces whatever the file held by the encoded token, and \<^verbatim>\<open>tokenFromFile\<close> on the
  same path returns what \<^verbatim>\<open>Decode\<close> makes of exactly these bytes.
\<close>

lemma save_then_load:
  assumes "creatable fs path" and "encode J tok = Some bytes"
  shows "saveToken J fs path tok = Inr (fs\<lparr>files := (files fs)(path \<mapsto> bytes)\<rparr>)"
    and "tokenFromFile J (fs\<lparr>files := (files fs)(path \<mapsto> bytes)\<rparr>) path =
           (case decode J bytes of None \<Rightarrow> Inl DecodeError | Some t \<Rightarrow> Inr t)"
  using assms by (simp_all add: saveToken_def tokenFromFile_def Let_def)

text \<open>
  Claim C9 says that a token saved with \<^verbatim>\<open>saveToken\<close> and loaded from the same path with
  \<^verbatim>\<open>tokenFromFile\<close> comes back field for field. Line 70 makes a failure to open the
  file fatal, but line 73 drops the error of \<^verbatim>\<open>Encode\<close>: when the encoding or the write
  fails, \<^verbatim>\<open>saveToken\<close> returns as if the token were saved, the file is left empty, and
  \<^verbatim>\<open>tokenFromFile\<close> on the same path returns an error, not the token.
\<close>

theorem encode_failure_not_reported:
  "saveToken failing_json demo_fs ''token.json'' ''abc'' =
     Inr (demo_fs\<lparr>files := [''token.json'' \<mapsto> []]\<rparr>)
   \<and> tokenFromFile failing_json (demo_fs\<lparr>files := [''token.json'' \<mapsto> []]\<rparr>) ''token.json'' =
     Inl DecodeError"
  by (simp add: saveToken_def tokenFromFile_def failing_json_def demo_json_def demo_fs_def Let_def)

end
